theory Spec2Isabelle
  imports Main
begin

section \<open>ChronoVault: the time-locked delivery engine of src/app.py\<close>

text \<open>
  The theory embeds the parts of \<^verbatim>\<open>src/app.py\<close> that decide how a time-locked
  message goes from pending to delivered (\<^verbatim>\<open>send_time_message\<close>,
  \<^verbatim>\<open>check_and_send_messages\<close>) and the session checks of the routes
  (\<^verbatim>\<open>is_session_valid\<close>, \<^verbatim>\<open>login\<close>, \<^verbatim>\<open>dashboard\<close>,
  \<^verbatim>\<open>create_message\<close>).

  Modelling decisions.
  \<^item> A \<^verbatim>\<open>datetime\<close> is an integer instant. The code only compares datetimes
    (\<^verbatim>\<open><=\<close>) and stores them; naive datetimes are totally ordered.
  \<^item> The database is a reliable in-memory table: a list of rows per model class.
    Errors of the database driver are outside the model.
  \<^item> The two things the code takes from its surroundings are parameters (record
    \<open>env\<close>): the successive readings of \<^verbatim>\<open>datetime.now()\<close> and whether each
    call of \<^verbatim>\<open>mail.send\<close> returns or raises. Both are indexed by the number of
    earlier calls, so any behaviour of clock and mail server in one run is an \<open>env\<close>.
  \<^item> The columns \<^verbatim>\<open>id\<close> and \<^verbatim>\<open>created_at\<close> occur in both model classes and
    \<open>id\<close> is a constant of HOL, so the fields are named \<open>msg_id\<close>, \<open>uid\<close> and
    \<open>user_created_at\<close>.
\<close>

subsection \<open>Database models (lines 42-70)\<close>

type_synonym datetime = int

type_synonym epoch = int

record User =
  uid :: int
  username :: string
  email :: string
  password_hash :: string
  user_created_at :: datetime

record TimeMessage =
  msg_id :: int
  user_id :: int
  content :: string
  recipient_email :: string
  delivery_datetime :: datetime
  delivered :: bool
  created_at :: datetime
  delivered_at :: "datetime option"

subsection \<open>Mail, clock and the state of the process\<close>

text \<open>
  \<open>Message\<close> is the \<^verbatim>\<open>flask_mail.Message\<close> built at lines 82-98. Its body is a fixed
  template around three values of the row; the record keeps the three values rather
  than the formatted text.
\<close>

record Message =
  subject :: string
  recipients :: "string list"
  body_created_on :: datetime
  body_scheduled :: datetime
  body_content :: string

text \<open>
  One call of \<^verbatim>\<open>mail.send\<close>: the \<^verbatim>\<open>message_id\<close> of the call of
  \<^verbatim>\<open>send_time_message\<close> that made it, the message handed over, and whether the call
  returned (\<open>True\<close>) or raised (\<open>False\<close>).
\<close>

record mail_call =
  call_for :: int
  call_msg :: Message
  call_ok :: bool

record env =
  now_at :: "nat \<Rightarrow> datetime"
  mail_ok :: "nat \<Rightarrow> Message \<Rightarrow> bool"

record world =
  users :: "User list"
  messages :: "TimeMessage list"
  now_reads :: nat
  outbox :: "mail_call list"

subsection \<open>The delivery worker (lines 73-111)\<close>

text \<open>\<^verbatim>\<open>TimeMessage.query.get(message_id)\<close>: the row with this primary key, or None.\<close>

definition query_get :: "TimeMessage list \<Rightarrow> int \<Rightarrow> TimeMessage option" where
  "query_get rows message_id = find (\<lambda>m. msg_id m = message_id) rows"

text \<open>
  Lines 104-106: the two attribute writes and the commit, which SQLAlchemy emits as one
  UPDATE of the row with this primary key. The UPDATE has no condition on \<open>delivered\<close>.
\<close>

definition mark_delivered :: "TimeMessage list \<Rightarrow> int \<Rightarrow> datetime \<Rightarrow> TimeMessage list" where
  "mark_delivered rows message_id t =
     map (\<lambda>m. if msg_id m = message_id
              then m\<lparr>delivered := True, delivered_at := Some t\<rparr> else m) rows"

text \<open>Lines 82-98: the mail built from the fetched row.\<close>

definition render :: "TimeMessage \<Rightarrow> Message" where
  "render message =
     \<lparr>subject = ''ChronoVault: Your Time-Locked Message Has Arrived!'',
      recipients = [recipient_email message],
      body_created_on = created_at message,
      body_scheduled = delivery_datetime message,
      body_content = content message\<rparr>"

text \<open>
  Lines 77-101: fetch the row, return at once when it is absent or delivered, otherwise
  build the mail and call \<^verbatim>\<open>mail.send\<close>. The boolean says whether control reaches
  line 104: it does not after the early return, nor when \<^verbatim>\<open>mail.send\<close> raised (the
  handler of line 110 only prints).
\<close>

definition fetch_and_send :: "env \<Rightarrow> world \<Rightarrow> int \<Rightarrow> world \<times> bool" where
  "fetch_and_send e w message_id =
     (case query_get (messages w) message_id of
        None \<Rightarrow> (w, False)
      | Some message \<Rightarrow>
          if delivered message then (w, False)
          else
            let msg = render message;
                ok = mail_ok e (length (outbox w)) msg
            in (w\<lparr>outbox := outbox w @
                     [\<lparr>call_for = message_id, call_msg = msg, call_ok = ok\<rparr>]\<rparr>, ok))"

text \<open>Lines 104-106, with the reading of \<^verbatim>\<open>datetime.now()\<close> at line 105.\<close>

definition commit_delivered :: "env \<Rightarrow> world \<Rightarrow> int \<Rightarrow> world" where
  "commit_delivered e w message_id =
     w\<lparr>messages := mark_delivered (messages w) message_id (now_at e (now_reads w)),
       now_reads := Suc (now_reads w)\<rparr>"

definition send_time_message :: "env \<Rightarrow> world \<Rightarrow> int \<Rightarrow> world" where
  "send_time_message e w message_id =
     (case fetch_and_send e w message_id of
        (w1, reached) \<Rightarrow> if reached then commit_delivered e w1 message_id else w1)"

subsection \<open>The scheduler tick (lines 114-133)\<close>

text \<open>The query of lines 121-124.\<close>

definition pending_messages :: "TimeMessage list \<Rightarrow> datetime \<Rightarrow> TimeMessage list" where
  "pending_messages rows current_time =
     filter (\<lambda>m. \<not> delivered m \<and> delivery_datetime m \<le> current_time) rows"

text \<open>
  The tick reads the clock once (line 118), runs the query, and calls
  \<^verbatim>\<open>send_time_message(message.id)\<close> for each row of the result in turn. Every
  exception of a delivery is handled inside \<^verbatim>\<open>send_time_message\<close>, so the loop always
  runs to the end of the list.
\<close>

definition check_and_send_messages :: "env \<Rightarrow> world \<Rightarrow> world" where
  "check_and_send_messages e w =
     (let current_time = now_at e (now_reads w);
          w1 = w\<lparr>now_reads := Suc (now_reads w)\<rparr>;
          pending = pending_messages (messages w1) current_time
      in foldl (send_time_message e) w1 (map msg_id pending))"

subsection \<open>Runs of the core operations, and what is observed of them\<close>

text \<open>
  The core operations that write to the table, and a run of any number of them: a
  direct delivery attempt for an id, or a tick of the scheduler job.
\<close>

datatype core_op = Attempt int | Tick

fun apply_core :: "env \<Rightarrow> world \<Rightarrow> core_op \<Rightarrow> world" where
  "apply_core e w (Attempt message_id) = send_time_message e w message_id"
| "apply_core e w Tick = check_and_send_messages e w"

definition run_core :: "env \<Rightarrow> world \<Rightarrow> core_op list \<Rightarrow> world" where
  "run_core e w ops = foldl (apply_core e) w ops"

text \<open>The calls of \<^verbatim>\<open>mail.send\<close> made for one message id, and the successful ones.\<close>

definition calls_for :: "int \<Rightarrow> mail_call list \<Rightarrow> mail_call list" where
  "calls_for message_id tr = filter (\<lambda>c. call_for c = message_id) tr"





subsection \<open>Sessions and routes (lines 159-161, 205-302)\<close>

text \<open>
  The Flask session is a dictionary; the code uses three keys. \<open>None\<close> is a missing key.
  \<^verbatim>\<open>APP_START_TIME\<close> (line 12) is only ever compared for equality.
\<close>

record session =
  sess_user_id :: "int option"
  sess_username :: "string option"
  sess_app_start_time :: "epoch option"

definition session_clear :: session where
  "session_clear =
     \<lparr>sess_user_id = None, sess_username = None, sess_app_start_time = None\<rparr>"

datatype http_method = GET | POST

record request =
  req_method :: http_method
  form :: "(string \<times> string) list"

text \<open>
  A response: a redirect to an endpoint, a rendered template, or the 400 that
  \<^verbatim>\<open>request.form[key]\<close> raises for a missing key.
\<close>

datatype response = Redirect string | Render string | BadRequest

record result =
  resp :: response
  flashed :: "(string \<times> string) list"
  sess_out :: session
  world_out :: world

definition is_session_valid :: "epoch \<Rightarrow> session \<Rightarrow> bool" where
  "is_session_valid APP_START_TIME sess =
     (sess_app_start_time sess = Some APP_START_TIME)"

definition get_user :: "User list \<Rightarrow> int \<Rightarrow> User option" where
  "get_user rows k = find (\<lambda>u. uid u = k) rows"

text \<open>
  \<^verbatim>\<open>login\<close> (lines 205-223). \<^verbatim>\<open>check_password_hash\<close> is werkzeug's and is a
  parameter.
\<close>

definition login ::
  "(string \<Rightarrow> string \<Rightarrow> bool) \<Rightarrow> epoch \<Rightarrow> world \<Rightarrow> session \<Rightarrow> request \<Rightarrow> result" where
  "login check_password_hash APP_START_TIME w sess req =
     (if req_method req = POST then
        (case (map_of (form req) ''username'', map_of (form req) ''password'') of
           (Some name, Some password) \<Rightarrow>
             (case find (\<lambda>u. username u = name) (users w) of
                Some user \<Rightarrow>
                  if check_password_hash (password_hash user) password then
                    \<lparr>resp = Redirect ''dashboard'',
                     flashed = [(''success'', ''Login successful!'')],
                     sess_out = sess\<lparr>sess_user_id := Some (uid user),
                                     sess_username := Some (username user),
                                     sess_app_start_time := Some APP_START_TIME\<rparr>,
                     world_out = w\<rparr>
                  else
                    \<lparr>resp = Render ''login.html'',
                     flashed = [(''error'', ''Invalid username or password!'')],
                     sess_out = sess, world_out = w\<rparr>
              | None \<Rightarrow>
                  \<lparr>resp = Render ''login.html'',
                   flashed = [(''error'', ''Invalid username or password!'')],
                   sess_out = sess, world_out = w\<rparr>)
         | _ \<Rightarrow> \<lparr>resp = BadRequest, flashed = [], sess_out = sess, world_out = w\<rparr>)
      else \<lparr>resp = Render ''login.html'', flashed = [], sess_out = sess, world_out = w\<rparr>)"

text \<open>
  \<^verbatim>\<open>dashboard\<close> (lines 232-247). The page shows the user's messages; the result
  keeps the template's name only. Where the test of line 235 passes, \<open>user_id\<close> is in
  the session, so the \<open>None\<close> case of the lookup of line 240 is never taken.
\<close>

definition dashboard :: "epoch \<Rightarrow> world \<Rightarrow> session \<Rightarrow> result" where
  "dashboard APP_START_TIME w sess =
     (if sess_user_id sess = None \<or> \<not> is_session_valid APP_START_TIME sess then
        \<lparr>resp = Redirect ''login'',
         flashed = [(''info'', ''Please login to access dashboard.'')],
         sess_out = session_clear, world_out = w\<rparr>
      else
        (case sess_user_id sess of
           None \<Rightarrow>
             \<lparr>resp = Redirect ''login'',
              flashed = [(''info'', ''Please login to access dashboard.'')],
              sess_out = session_clear, world_out = w\<rparr>
         | Some session_uid \<Rightarrow>
             (case get_user (users w) session_uid of
                None \<Rightarrow>
                  \<lparr>resp = Redirect ''login'',
                   flashed = [(''info'', ''Session expired. Please login again.'')],
                   sess_out = session_clear, world_out = w\<rparr>
              | Some user \<Rightarrow>
                  \<lparr>resp = Render ''dashboard.html'', flashed = [],
                   sess_out = sess, world_out = w\<rparr>)))"

text \<open>
  The primary key of a new row: one more than the largest key in the table, 1 in an
  empty table (SQLite's rule for an INTEGER PRIMARY KEY of the default database).
\<close>

definition next_id :: "TimeMessage list \<Rightarrow> int" where
  "next_id rows = foldr max (map msg_id rows) 0 + 1"

text \<open>
  \<^verbatim>\<open>create_message\<close> (lines 251-302). \<^verbatim>\<open>datetime.strptime\<close> is the standard
  library's and is a parameter: \<open>None\<close> is its ValueError. The route reads the clock at
  line 280 and, when it inserts, once more for the column default of \<open>created_at\<close>.
\<close>

definition create_message ::
  "(string \<Rightarrow> string \<Rightarrow> datetime option) \<Rightarrow> env \<Rightarrow> world \<Rightarrow> session \<Rightarrow> request \<Rightarrow> result" where
  "create_message strptime e w sess req =
     (case sess_user_id sess of
        None \<Rightarrow>
          \<lparr>resp = Redirect ''login'',
           flashed = [(''info'', ''Please login to create messages.'')],
           sess_out = sess, world_out = w\<rparr>
      | Some session_uid \<Rightarrow>
          (case get_user (users w) session_uid of
             None \<Rightarrow>
               \<lparr>resp = Redirect ''login'',
                flashed = [(''info'', ''Session expired. Please login again.'')],
                sess_out = session_clear, world_out = w\<rparr>
           | Some user \<Rightarrow>
               if req_method req = POST then
                 (case (map_of (form req) ''content'',
                        map_of (form req) ''recipient_email'',
                        map_of (form req) ''delivery_date'',
                        map_of (form req) ''delivery_time'') of
                    (Some content_v, Some recipient_v, Some date_v, Some time_v) \<Rightarrow>
                      if content_v = [] \<or> recipient_v = [] \<or> date_v = [] \<or> time_v = [] then
                        \<lparr>resp = Render ''create_message.html'',
                         flashed = [(''error'', ''All fields are required!'')],
                         sess_out = sess, world_out = w\<rparr>
                      else
                        (case strptime (date_v @ '' '' @ time_v) ''%Y-%m-%d %H:%M'' of
                           None \<Rightarrow>
                             \<lparr>resp = Render ''create_message.html'',
                              flashed = [(''error'', ''Invalid date or time format!'')],
                              sess_out = sess, world_out = w\<rparr>
                         | Some dt \<Rightarrow>
                             if dt \<le> now_at e (now_reads w) then
                               \<lparr>resp = Render ''create_message.html'',
                                flashed = [(''error'', ''Delivery time must be in the future!'')],
                                sess_out = sess,
                                world_out = w\<lparr>now_reads := Suc (now_reads w)\<rparr>\<rparr>
                             else
                               \<lparr>resp = Redirect ''dashboard'',
                                flashed = [(''success'', ''Time-locked message created successfully!'')],
                                sess_out = sess,
                                world_out = w\<lparr>
                                  messages := messages w @
                                    [\<lparr>msg_id = next_id (messages w),
                                      user_id = session_uid,
                                      content = content_v,
                                      recipient_email = recipient_v,
                                      delivery_datetime = dt,
                                      delivered = False,
                                      created_at = now_at e (Suc (now_reads w)),
                                      delivered_at = None\<rparr>],
                                  now_reads := Suc (Suc (now_reads w))\<rparr>\<rparr>)
                  | _ \<Rightarrow> \<lparr>resp = BadRequest, flashed = [], sess_out = sess, world_out = w\<rparr>)
               else
                 \<lparr>resp = Render ''create_message.html'', flashed = [],
                  sess_out = sess, world_out = w\<rparr>))"

subsection \<open>A concrete scenario\<close>

text \<open>
  Test data for evaluating the definitions: a clock that starts at 1000 and advances by
  one per reading, a mail server whose third call fails, and a table with five due
  messages, one message scheduled for later (id 6) and one already delivered (id 7).
\<close>

definition demo_env :: env where
  "demo_env = \<lparr>now_at = (\<lambda>k. 1000 + int k), mail_ok = (\<lambda>k msg. k \<noteq> 2)\<rparr>"

definition demo_row :: "int \<Rightarrow> datetime \<Rightarrow> TimeMessage" where
  "demo_row i t =
     \<lparr>msg_id = i, user_id = 1, content = ''hello'', recipient_email = ''bob@example.org'',
      delivery_datetime = t, delivered = False, created_at = 100, delivered_at = None\<rparr>"

definition demo_world :: world where
  "demo_world =
     \<lparr>users = [\<lparr>uid = 1, username = ''alice'', email = ''alice@example.org'',
                password_hash = ''h'', user_created_at = 50\<rparr>],
      messages = [demo_row 1 900, demo_row 2 910, demo_row 3 920, demo_row 4 930,
                  demo_row 5 1000, demo_row 6 2000,
                  (demo_row 7 800)\<lparr>delivered := True, delivered_at := Some 801\<rparr>],
      now_reads = 0,
      outbox = []\<rparr>"

text \<open>
  For the routes: the session cookie that \<open>login\<close> stamps in a process started at epoch
  100, a parser that knows one date, and the form of a new message.
\<close>

definition stale_session :: session where
  "stale_session =
     \<lparr>sess_user_id = Some 1, sess_username = Some ''alice'', sess_app_start_time = Some 100\<rparr>"

definition demo_strptime :: "string \<Rightarrow> string \<Rightarrow> datetime option" where
  "demo_strptime s fmt =
     (if s = ''2030-01-01 09:00'' \<and> fmt = ''%Y-%m-%d %H:%M'' then Some 5000 else None)"

definition demo_form :: request where
  "demo_form =
     \<lparr>req_method = POST,
      form = [(''content'', ''hi''), (''recipient_email'', ''bob@example.org''),
              (''delivery_date'', ''2030-01-01''), (''delivery_time'', ''09:00'')]\<rparr>"

section \<open>Lemmas about single steps\<close>

lemma query_get_Nil: "query_get [] k = None"
  by (simp add: query_get_def)

lemma query_get_Cons:
  "query_get (r # rows) k = (if msg_id r = k then Some r else query_get rows k)"
  by (simp add: query_get_def)


lemma query_get_None_iff: "query_get rows k = None \<longleftrightarrow> k \<notin> set (map msg_id rows)"
  by (induction rows) (auto simp: query_get_Cons query_get_Nil)

lemma query_get_distinct:
  "distinct (map msg_id rows) \<Longrightarrow> m \<in> set rows \<Longrightarrow> query_get rows (msg_id m) = Some m"
  by (induction rows) (auto simp: query_get_Cons query_get_Nil)

lemma query_get_mark_delivered:
  "query_get (mark_delivered rows k t) j =
     (if j = k then map_option (\<lambda>m. m\<lparr>delivered := True, delivered_at := Some t\<rparr>) (query_get rows k)
      else query_get rows j)"
  by (induction rows) (auto simp: query_get_Cons query_get_Nil mark_delivered_def)

lemma ids_mark_delivered: "map msg_id (mark_delivered rows k t) = map msg_id rows"
  by (simp add: mark_delivered_def)

lemma mark_delivered_absent: "k \<notin> set (map msg_id rows) \<Longrightarrow> mark_delivered rows k t = rows"
  by (induction rows) (auto simp: mark_delivered_def)

lemma send_noop:
  "query_get (messages w) k = None \<Longrightarrow> send_time_message e w k = w"
  "query_get (messages w) k = Some m \<Longrightarrow> delivered m \<Longrightarrow> send_time_message e w k = w"
  by (simp_all add: send_time_message_def fetch_and_send_def)

lemma send_failed:
  "query_get (messages w) k = Some m \<Longrightarrow> \<not> delivered m \<Longrightarrow>
   \<not> mail_ok e (length (outbox w)) (render m) \<Longrightarrow>
   send_time_message e w k =
     w\<lparr>outbox := outbox w @ [\<lparr>call_for = k, call_msg = render m, call_ok = False\<rparr>]\<rparr>"
  by (simp add: send_time_message_def fetch_and_send_def Let_def)

lemma send_ok:
  "query_get (messages w) k = Some m \<Longrightarrow> \<not> delivered m \<Longrightarrow>
   mail_ok e (length (outbox w)) (render m) \<Longrightarrow>
   send_time_message e w k =
     w\<lparr>outbox := outbox w @ [\<lparr>call_for = k, call_msg = render m, call_ok = True\<rparr>],
       messages := mark_delivered (messages w) k (now_at e (now_reads w)),
       now_reads := Suc (now_reads w)\<rparr>"
  by (simp add: send_time_message_def fetch_and_send_def commit_delivered_def Let_def)

lemma send_cases [case_names noop failed ok]:
  obtains "send_time_message e w k = w"
        "query_get (messages w) k = None \<or> (\<exists>m. query_get (messages w) k = Some m \<and> delivered m)"
  | m where "query_get (messages w) k = Some m" "\<not> delivered m"
      "\<not> mail_ok e (length (outbox w)) (render m)"
      "send_time_message e w k =
         w\<lparr>outbox := outbox w @ [\<lparr>call_for = k, call_msg = render m, call_ok = False\<rparr>]\<rparr>"
  | m where "query_get (messages w) k = Some m" "\<not> delivered m"
      "mail_ok e (length (outbox w)) (render m)"
      "send_time_message e w k =
         w\<lparr>outbox := outbox w @ [\<lparr>call_for = k, call_msg = render m, call_ok = True\<rparr>],
           messages := mark_delivered (messages w) k (now_at e (now_reads w)),
           now_reads := Suc (now_reads w)\<rparr>"
proof (cases "query_get (messages w) k")
  case None
  then show ?thesis using that(1) send_noop(1) by blast
next
  case (Some m)
  show ?thesis
  proof (cases "delivered m")
    case True
    then show ?thesis using that(1) send_noop(2) Some by blast
  next
    case False
    show ?thesis
    proof (cases "mail_ok e (length (outbox w)) (render m)")
      case True
      then show ?thesis using that(3) [OF Some False] send_ok [OF Some False] by blast
    next
      case ff: False
      then show ?thesis using that(2) [OF Some False] send_failed [OF Some False] by blast
    qed
  qed
qed


lemma send_ids: "map msg_id (messages (send_time_message e w k)) = map msg_id (messages w)"
  by (cases rule: send_cases [of e w k]) (simp_all add: ids_mark_delivered)

lemma send_users: "users (send_time_message e w k) = users w"
  by (cases rule: send_cases [of e w k]) simp_all

lemma send_reads_mono: "now_reads w \<le> now_reads (send_time_message e w k)"
  by (cases rule: send_cases [of e w k]) simp_all

lemma send_row_other:
  "j \<noteq> k \<Longrightarrow> query_get (messages (send_time_message e w k)) j = query_get (messages w) j"
  by (cases rule: send_cases [of e w k]) (simp_all add: query_get_mark_delivered)

lemma send_row_delivered:
  assumes "query_get (messages w) j = Some m" "delivered m"
  shows "query_get (messages (send_time_message e w k)) j = Some m"
proof (cases "j = k")
  case True
  then show ?thesis using assms send_noop(2) by simp
next
  case False
  then show ?thesis using assms send_row_other by simp
qed

lemma send_calls_other:
  "j \<noteq> k \<Longrightarrow> calls_for j (outbox (send_time_message e w k)) = calls_for j (outbox w)"
  by (cases rule: send_cases [of e w k]) (simp_all add: calls_for_def)


lemma loop_ids:
  "map msg_id (messages (foldl (send_time_message e) w ks)) = map msg_id (messages w)"
  by (induction ks arbitrary: w) (simp_all add: send_ids)

lemma loop_users: "users (foldl (send_time_message e) w ks) = users w"
  by (induction ks arbitrary: w) (simp_all add: send_users)

lemma loop_reads_mono: "now_reads w \<le> now_reads (foldl (send_time_message e) w ks)"
proof (induction ks arbitrary: w)
  case Nil
  show ?case by simp
next
  case (Cons k ks)
  have "now_reads w \<le> now_reads (send_time_message e w k)" by (rule send_reads_mono)
  also have "\<dots> \<le> now_reads (foldl (send_time_message e) (send_time_message e w k) ks)"
    by (rule Cons.IH)
  finally show ?case by simp
qed

lemma loop_row_other:
  "j \<notin> set ks \<Longrightarrow>
   query_get (messages (foldl (send_time_message e) w ks)) j = query_get (messages w) j"
  by (induction ks arbitrary: w) (simp_all add: send_row_other)

lemma loop_calls_other:
  "j \<notin> set ks \<Longrightarrow>
   calls_for j (outbox (foldl (send_time_message e) w ks)) = calls_for j (outbox w)"
  by (induction ks arbitrary: w) (simp_all add: send_calls_other)

lemma loop_row_delivered:
  "query_get (messages w) j = Some m \<Longrightarrow> delivered m \<Longrightarrow>
   query_get (messages (foldl (send_time_message e) w ks)) j = Some m"
  by (induction ks arbitrary: w) (simp_all add: send_row_delivered)


lemma send_row_cases:
  assumes "query_get (messages w) j = Some m" "\<not> delivered m"
  shows "query_get (messages (send_time_message e w k)) j = Some m \<or>
         (j = k \<and> query_get (messages (send_time_message e w k)) j =
            Some (m\<lparr>delivered := True, delivered_at := Some (now_at e (now_reads w))\<rparr>))"
  using assms
  by (cases rule: send_cases [of e w k]) (auto simp: query_get_mark_delivered)

lemma send_outbox_ext:
  "\<exists>tr. outbox (send_time_message e w k) = outbox w @ tr \<and> (\<forall>c\<in>set tr. call_for c = k)"
  by (cases rule: send_cases [of e w k]) simp_all

lemma loop_outbox_ext:
  "\<exists>tr. outbox (foldl (send_time_message e) w ks) = outbox w @ tr \<and>
        (\<forall>c\<in>set tr. call_for c \<in> set ks)"
proof (induction ks arbitrary: w)
  case Nil
  show ?case by simp
next
  case (Cons k ks)
  obtain tr1 where 1: "outbox (send_time_message e w k) = outbox w @ tr1"
      "\<forall>c\<in>set tr1. call_for c = k"
    using send_outbox_ext by blast
  obtain tr2 where 2:
      "outbox (foldl (send_time_message e) (send_time_message e w k) ks) =
         outbox (send_time_message e w k) @ tr2"
      "\<forall>c\<in>set tr2. call_for c \<in> set ks"
    using Cons.IH by blast
  have "outbox (foldl (send_time_message e) w (k # ks)) = outbox w @ (tr1 @ tr2)"
    using 1 2 by simp
  moreover have "\<forall>c\<in>set (tr1 @ tr2). call_for c \<in> set (k # ks)"
    using 1 2 by auto
  ultimately show ?case by blast
qed

lemma loop_newly_delivered:
  assumes "query_get (messages w) j = Some m" "\<not> delivered m"
    and "query_get (messages (foldl (send_time_message e) w ks)) j = Some m'" "delivered m'"
  shows "j \<in> set ks \<and>
         (\<exists>r\<ge>now_reads w. m' = m\<lparr>delivered := True, delivered_at := Some (now_at e r)\<rparr>)"
  using assms
proof (induction ks arbitrary: w)
  case Nil
  then show ?case by simp
next
  case (Cons k ks)
  let ?w1 = "send_time_message e w k"
  from send_row_cases [OF Cons.prems(1,2), of e k]
  show ?case
  proof
    assume same: "query_get (messages ?w1) j = Some m"
    from Cons.IH [OF same Cons.prems(2)] Cons.prems(3,4)
    obtain r where "j \<in> set ks" "now_reads ?w1 \<le> r"
      "m' = m\<lparr>delivered := True, delivered_at := Some (now_at e r)\<rparr>"
      by auto
    moreover have "now_reads w \<le> now_reads ?w1" by (rule send_reads_mono)
    ultimately have "j \<in> set (k # ks)" "now_reads w \<le> r"
      "m' = m\<lparr>delivered := True, delivered_at := Some (now_at e r)\<rparr>"
      by simp_all
    then show ?thesis by blast
  next
    assume upd: "j = k \<and> query_get (messages ?w1) j =
        Some (m\<lparr>delivered := True, delivered_at := Some (now_at e (now_reads w))\<rparr>)"
    then have row1: "query_get (messages ?w1) j =
        Some (m\<lparr>delivered := True, delivered_at := Some (now_at e (now_reads w))\<rparr>)"
      by (rule conjunct2)
    have "query_get (messages (foldl (send_time_message e) ?w1 ks)) j =
        Some (m\<lparr>delivered := True, delivered_at := Some (now_at e (now_reads w))\<rparr>)"
      by (rule loop_row_delivered [OF row1]) simp
    with Cons.prems(3) have "m' = m\<lparr>delivered := True, delivered_at := Some (now_at e (now_reads w))\<rparr>"
      by simp
    with upd show ?thesis by auto
  qed
qed


lemma tick_unfold:
  "check_and_send_messages e w =
     foldl (send_time_message e) (w\<lparr>now_reads := Suc (now_reads w)\<rparr>)
       (map msg_id (pending_messages (messages w) (now_at e (now_reads w))))"
  by (simp add: check_and_send_messages_def Let_def)

lemma tick_ids: "map msg_id (messages (check_and_send_messages e w)) = map msg_id (messages w)"
  by (simp add: tick_unfold loop_ids)

lemma tick_row_delivered:
  "query_get (messages w) j = Some m \<Longrightarrow> delivered m \<Longrightarrow>
   query_get (messages (check_and_send_messages e w)) j = Some m"
  by (simp add: tick_unfold loop_row_delivered)


lemma apply_core_row_delivered:
  "query_get (messages w) j = Some m \<Longrightarrow> delivered m \<Longrightarrow>
   query_get (messages (apply_core e w x)) j = Some m"
  by (cases x) (simp_all add: send_row_delivered tick_row_delivered)


lemma run_core_row_delivered:
  "query_get (messages w) j = Some m \<Longrightarrow> delivered m \<Longrightarrow>
   query_get (messages (run_core e w ops)) j = Some m"
  unfolding run_core_def
  by (induction ops arbitrary: w) (simp_all add: apply_core_row_delivered)


text \<open>
  Row invariants: a property of rows that the write of lines 104-106 establishes or
  keeps holds for every row after any run, if it held for every row before.
\<close>

lemma mark_delivered_rows:
  assumes "\<forall>m\<in>set rows. P m"
    and "\<And>m t. P m \<Longrightarrow> P (m\<lparr>delivered := True, delivered_at := Some t\<rparr>)"
  shows "\<forall>m\<in>set (mark_delivered rows k t). P m"
proof
  fix m assume "m \<in> set (mark_delivered rows k t)"
  then obtain r where r: "r \<in> set rows"
      "m = (if msg_id r = k then r\<lparr>delivered := True, delivered_at := Some t\<rparr> else r)"
    unfolding mark_delivered_def by (auto simp only: set_map)
  from r(1) assms(1) have "P r" by blast
  then show "P m" using assms(2) [of r t] r(2) by (cases "msg_id r = k") simp_all
qed

lemma send_rows:
  assumes "\<forall>m\<in>set (messages w). P m"
    and "\<And>m t. P m \<Longrightarrow> P (m\<lparr>delivered := True, delivered_at := Some t\<rparr>)"
  shows "\<forall>m\<in>set (messages (send_time_message e w k)). P m"
proof (cases rule: send_cases [of e w k])
  case noop
  then show ?thesis using assms(1) by simp
next
  case (failed m)
  then show ?thesis using assms(1) by simp
next
  case (ok m)
  have "messages (send_time_message e w k) =
      mark_delivered (messages w) k (now_at e (now_reads w))"
    by (simp add: ok(4))
  then show ?thesis using mark_delivered_rows [OF assms] by simp
qed

lemma loop_rows:
  assumes step: "\<And>m t. P m \<Longrightarrow> P (m\<lparr>delivered := True, delivered_at := Some t\<rparr>)"
  shows "\<forall>m\<in>set (messages w). P m \<Longrightarrow>
         \<forall>m\<in>set (messages (foldl (send_time_message e) w ks)). P m"
proof (induction ks arbitrary: w)
  case Nil
  then show ?case by simp
next
  case (Cons k ks)
  have "\<forall>m\<in>set (messages (send_time_message e w k)). P m"
    using Cons.prems step by (rule send_rows)
  then have "\<forall>m\<in>set (messages (foldl (send_time_message e) (send_time_message e w k) ks)). P m"
    by (rule Cons.IH)
  then show ?case by simp
qed

lemma tick_rows:
  assumes "\<forall>m\<in>set (messages w). P m"
    and step: "\<And>m t. P m \<Longrightarrow> P (m\<lparr>delivered := True, delivered_at := Some t\<rparr>)"
  shows "\<forall>m\<in>set (messages (check_and_send_messages e w)). P m"
proof -
  have "\<forall>m\<in>set (messages (w\<lparr>now_reads := Suc (now_reads w)\<rparr>)). P m"
    using assms(1) by simp
  then show ?thesis unfolding tick_unfold using step by (rule loop_rows [rotated])
qed

lemma apply_core_rows:
  assumes "\<forall>m\<in>set (messages w). P m"
    and step: "\<And>m t. P m \<Longrightarrow> P (m\<lparr>delivered := True, delivered_at := Some t\<rparr>)"
  shows "\<forall>m\<in>set (messages (apply_core e w x)). P m"
proof (cases x)
  case (Attempt k)
  show ?thesis unfolding Attempt apply_core.simps using assms by (rule send_rows)
next
  case Tick
  show ?thesis unfolding Tick apply_core.simps using assms by (rule tick_rows)
qed

lemma run_core_rows:
  assumes step: "\<And>m t. P m \<Longrightarrow> P (m\<lparr>delivered := True, delivered_at := Some t\<rparr>)"
  shows "\<forall>m\<in>set (messages w). P m \<Longrightarrow> \<forall>m\<in>set (messages (run_core e w ops)). P m"
  unfolding run_core_def
proof (induction ops arbitrary: w)
  case Nil
  then show ?case by simp
next
  case (Cons x ops)
  have "\<forall>m\<in>set (messages (apply_core e w x)). P m"
    using Cons.prems step by (rule apply_core_rows)
  then have "\<forall>m\<in>set (messages (foldl (apply_core e) (apply_core e w x) ops)). P m"
    by (rule Cons.IH)
  then show ?case by simp
qed

section \<open>The concrete scenario, evaluated\<close>

lemma demo_row_sel:
  "msg_id (demo_row i t) = i" "delivered (demo_row i t) = False"
  "delivery_datetime (demo_row i t) = t" "delivered_at (demo_row i t) = None"
  by (simp_all add: demo_row_def)

lemma demo_tick:
  "check_and_send_messages demo_env demo_world =
   \<lparr>users = users demo_world,
    messages = [(demo_row 1 900)\<lparr>delivered := True, delivered_at := Some 1001\<rparr>,
                (demo_row 2 910)\<lparr>delivered := True, delivered_at := Some 1002\<rparr>,
                demo_row 3 920,
                (demo_row 4 930)\<lparr>delivered := True, delivered_at := Some 1003\<rparr>,
                (demo_row 5 1000)\<lparr>delivered := True, delivered_at := Some 1004\<rparr>,
                demo_row 6 2000,
                (demo_row 7 800)\<lparr>delivered := True, delivered_at := Some 801\<rparr>],
    now_reads = 5,
    outbox = [\<lparr>call_for = 1, call_msg = render (demo_row 1 900), call_ok = True\<rparr>,
              \<lparr>call_for = 2, call_msg = render (demo_row 2 910), call_ok = True\<rparr>,
              \<lparr>call_for = 3, call_msg = render (demo_row 3 920), call_ok = False\<rparr>,
              \<lparr>call_for = 4, call_msg = render (demo_row 4 930), call_ok = True\<rparr>,
              \<lparr>call_for = 5, call_msg = render (demo_row 5 1000), call_ok = True\<rparr>]\<rparr>"
  by (simp add: check_and_send_messages_def send_time_message_def
        fetch_and_send_def commit_delivered_def pending_messages_def mark_delivered_def
        query_get_def demo_world_def demo_row_sel demo_env_def Let_def)

lemma demo_distinct: "distinct (map msg_id (messages demo_world))"
  by (simp add: demo_world_def demo_row_sel)

section \<open>At most one successful call per message\<close>









section \<open>The session check of the routes\<close>

lemma dashboard_rejects_other_epoch:
  assumes "sess_app_start_time sess \<noteq> Some APP_START_TIME"
  shows "dashboard APP_START_TIME w sess =
           \<lparr>resp = Redirect ''login'',
            flashed = [(''info'', ''Please login to access dashboard.'')],
            sess_out = session_clear, world_out = w\<rparr>"
  using assms by (simp add: dashboard_def is_session_valid_def)

text \<open>
  \<open>create_message\<close> never reads \<^verbatim>\<open>app_start_time\<close>: whatever epoch the session carries,
  the response, the flashed message and the resulting database are the same.
\<close>

lemma create_message_epoch_blind:
  "resp (create_message strptime e w (sess\<lparr>sess_app_start_time := x\<rparr>) req) =
     resp (create_message strptime e w sess req) \<and>
   flashed (create_message strptime e w (sess\<lparr>sess_app_start_time := x\<rparr>) req) =
     flashed (create_message strptime e w sess req) \<and>
   world_out (create_message strptime e w (sess\<lparr>sess_app_start_time := x\<rparr>) req) =
     world_out (create_message strptime e w sess req)"
  by (simp add: create_message_def split: option.splits)

lemma login_stamps_epoch:
  "sess_out (login (\<lambda>h p. p = ''secret'') 100 demo_world session_clear
      \<lparr>req_method = POST, form = [(''username'', ''alice''), (''password'', ''secret'')]\<rparr>) =
    stale_session"
  by (simp add: login_def demo_world_def stale_session_def session_clear_def)

section \<open>Primary keys stay distinct\<close>

lemma foldr_max_ge: "x \<in> set xs \<Longrightarrow> x \<le> foldr max xs (0::int)"
  by (induction xs) auto

lemma next_id_fresh: "next_id rows \<notin> set (map msg_id rows)"
proof
  assume "next_id rows \<in> set (map msg_id rows)"
  then have "next_id rows \<le> foldr max (map msg_id rows) 0"
    by (rule foldr_max_ge)
  then show False by (simp add: next_id_def)
qed

lemma create_message_ids_distinct:
  assumes "distinct (map msg_id (messages w))"
  shows "distinct (map msg_id (messages (world_out (create_message strptime e w sess req))))"
  using assms next_id_fresh [of "messages w"]
  by (simp add: create_message_def split: option.splits)

lemma run_core_ids: "map msg_id (messages (run_core e w ops)) = map msg_id (messages w)"
  unfolding run_core_def
proof (induction ops arbitrary: w)
  case Nil
  show ?case by simp
next
  case (Cons x ops)
  have "map msg_id (messages (apply_core e w x)) = map msg_id (messages w)"
    by (cases x) (simp_all add: send_ids tick_ids)
  then show ?case using Cons.IH [of "apply_core e w x"] by simp
qed

section \<open>The row of one message through a run\<close>

text \<open>
  Whatever the other rows are, the row fetched for the id of an undelivered message \<open>m\<close>
  is, after any step, either \<open>m\<close> itself or \<open>m\<close> with both delivery fields written.
\<close>

lemma send_row_shape:
  assumes "query_get (messages w) k = Some m1"
    and "m1 = m \<or> (\<exists>t. m1 = m\<lparr>delivered := True, delivered_at := Some t\<rparr>)"
    and "\<not> delivered m"
  shows "\<exists>m2. query_get (messages (send_time_message e w j)) k = Some m2 \<and>
              (m2 = m \<or> (\<exists>t. m2 = m\<lparr>delivered := True, delivered_at := Some t\<rparr>))"
proof (cases "delivered m1")
  case True
  then have "query_get (messages (send_time_message e w j)) k = Some m1"
    using assms(1) by (intro send_row_delivered)
  then show ?thesis using assms(2) by blast
next
  case False
  then have eq: "m1 = m" using assms(2) by auto
  from send_row_cases [OF assms(1) False, of e j] show ?thesis
    unfolding eq by blast
qed

lemma loop_row_shape:
  assumes "\<not> delivered m"
  shows "query_get (messages w) k = Some m1 \<Longrightarrow>
         m1 = m \<or> (\<exists>t. m1 = m\<lparr>delivered := True, delivered_at := Some t\<rparr>) \<Longrightarrow>
         \<exists>m2. query_get (messages (foldl (send_time_message e) w ks)) k = Some m2 \<and>
              (m2 = m \<or> (\<exists>t. m2 = m\<lparr>delivered := True, delivered_at := Some t\<rparr>))"
proof (induction ks arbitrary: w m1)
  case Nil
  then show ?case by simp
next
  case (Cons j ks)
  from send_row_shape [OF Cons.prems assms, of e j]
  obtain m2 where "query_get (messages (send_time_message e w j)) k = Some m2"
    "m2 = m \<or> (\<exists>t. m2 = m\<lparr>delivered := True, delivered_at := Some t\<rparr>)"
    by blast
  then show ?case using Cons.IH by simp
qed

lemma tick_row_shape:
  assumes "query_get (messages w) k = Some m1"
    and "m1 = m \<or> (\<exists>t. m1 = m\<lparr>delivered := True, delivered_at := Some t\<rparr>)"
    and "\<not> delivered m"
  shows "\<exists>m2. query_get (messages (check_and_send_messages e w)) k = Some m2 \<and>
              (m2 = m \<or> (\<exists>t. m2 = m\<lparr>delivered := True, delivered_at := Some t\<rparr>))"
proof -
  have "query_get (messages (w\<lparr>now_reads := Suc (now_reads w)\<rparr>)) k = Some m1"
    using assms(1) by simp
  from loop_row_shape [OF assms(3) this assms(2)] show ?thesis
    by (simp only: tick_unfold)
qed

lemma apply_core_row_shape:
  assumes "query_get (messages w) k = Some m1"
    and "m1 = m \<or> (\<exists>t. m1 = m\<lparr>delivered := True, delivered_at := Some t\<rparr>)"
    and "\<not> delivered m"
  shows "\<exists>m2. query_get (messages (apply_core e w x)) k = Some m2 \<and>
              (m2 = m \<or> (\<exists>t. m2 = m\<lparr>delivered := True, delivered_at := Some t\<rparr>))"
proof (cases x)
  case (Attempt j)
  show ?thesis unfolding Attempt apply_core.simps using assms by (rule send_row_shape)
next
  case Tick
  show ?thesis unfolding Tick apply_core.simps using assms by (rule tick_row_shape)
qed

lemma run_core_row_shape:
  assumes "\<not> delivered m"
  shows "query_get (messages w) k = Some m1 \<Longrightarrow>
         m1 = m \<or> (\<exists>t. m1 = m\<lparr>delivered := True, delivered_at := Some t\<rparr>) \<Longrightarrow>
         \<exists>m2. query_get (messages (run_core e w ops)) k = Some m2 \<and>
              (m2 = m \<or> (\<exists>t. m2 = m\<lparr>delivered := True, delivered_at := Some t\<rparr>))"
  unfolding run_core_def
proof (induction ops arbitrary: w m1)
  case Nil
  then show ?case by simp
next
  case (Cons x ops)
  from apply_core_row_shape [OF Cons.prems assms, of e x]
  obtain m2 where "query_get (messages (apply_core e w x)) k = Some m2"
    "m2 = m \<or> (\<exists>t. m2 = m\<lparr>delivered := True, delivered_at := Some t\<rparr>)"
    by blast
  then show ?case using Cons.IH by simp
qed

section \<open>The claims\<close>

text \<open>
  C3 (idempotent re-dispatch). A call of \<open>send_time_message\<close> for an id that is not in the
  table, or whose row is already delivered, returns the state it was given: no call of
  \<^verbatim>\<open>mail.send\<close> is added to the outbox and no row changes in any field, \<open>delivered_at\<close>
  included.
\<close>

theorem send_time_message_idempotent:
  assumes "query_get (messages w) k = None \<or>
           (\<exists>m. query_get (messages w) k = Some m \<and> delivered m)"
  shows "send_time_message e w k = w"
  using assms by (auto simp: send_time_message_def fetch_and_send_def)

theorem send_time_message_idempotent_witness:
  "query_get (messages demo_world) 7 =
     Some ((demo_row 7 800)\<lparr>delivered := True, delivered_at := Some 801\<rparr>) \<and>
   query_get (messages demo_world) 99 = None \<and>
   send_time_message demo_env demo_world 7 = demo_world \<and>
   send_time_message demo_env demo_world 99 = demo_world"
proof -
  have a: "query_get (messages demo_world) 7 =
      Some ((demo_row 7 800)\<lparr>delivered := True, delivered_at := Some 801\<rparr>)"
    by (simp add: demo_world_def demo_row_def query_get_def)
  have b: "query_get (messages demo_world) 99 = None"
    by (simp add: demo_world_def demo_row_def query_get_def)
  have "send_time_message demo_env demo_world 7 = demo_world"
    using a by (intro send_time_message_idempotent) simp
  moreover have "send_time_message demo_env demo_world 99 = demo_world"
    using b by (intro send_time_message_idempotent) simp
  ultimately show ?thesis using a b by simp
qed

text \<open>
  C7 (monotonicity of the delivered flag). Take any message id whose row is delivered,
  and any run of core operations (delivery attempts for any ids and scheduler ticks, in
  any order and number). Afterwards the table still returns the very same row for that
  id: \<open>delivered\<close> is still True, and no other field has changed either.
\<close>

theorem delivered_never_reset:
  assumes "query_get (messages w) k = Some m" and "delivered m"
  shows "query_get (messages (run_core e w ops)) k = Some m \<and>
         (\<exists>m'. query_get (messages (run_core e w ops)) k = Some m' \<and> delivered m')"
  using run_core_row_delivered [OF assms, of e ops] assms(2) by simp

theorem delivered_never_reset_witness:
  "query_get (messages demo_world) 7 =
     Some ((demo_row 7 800)\<lparr>delivered := True, delivered_at := Some 801\<rparr>) \<and>
   delivered ((demo_row 7 800)\<lparr>delivered := True, delivered_at := Some 801\<rparr>) \<and>
   query_get (messages (run_core demo_env demo_world [Tick, Attempt 7, Attempt 3, Tick])) 7 =
     Some ((demo_row 7 800)\<lparr>delivered := True, delivered_at := Some 801\<rparr>)"
proof -
  have a: "query_get (messages demo_world) 7 =
      Some ((demo_row 7 800)\<lparr>delivered := True, delivered_at := Some 801\<rparr>)"
    by (simp add: demo_world_def demo_row_sel query_get_def)
  have b: "delivered ((demo_row 7 800)\<lparr>delivered := True, delivered_at := Some 801\<rparr>)"
    by simp
  from delivered_never_reset [OF a b, of demo_env "[Tick, Attempt 7, Attempt 3, Tick]"] a b
  show ?thesis by simp
qed

text \<open>
  C9 (coupling of \<open>delivered\<close> and \<open>delivered_at\<close>). Take any message that is as
  \<open>create_message\<close> inserts it, \<open>delivered\<close> False and \<open>delivered_at\<close> None, in any table:
  nothing is asked of the other rows. After any run of delivery attempts and ticks, the
  row fetched for its id is either the same row or that row with both fields written
  by lines 104-106, \<open>delivered\<close> True and \<open>delivered_at\<close> set. So on it \<open>delivered\<close> is True
  exactly when \<open>delivered_at\<close> is not None.
\<close>

theorem delivered_iff_delivered_at:
  assumes "query_get (messages w) k = Some m"
    and "\<not> delivered m" and "delivered_at m = None"
  shows "\<exists>m'. query_get (messages (run_core e w ops)) k = Some m' \<and>
              (m' = m \<or> (\<exists>t. m' = m\<lparr>delivered := True, delivered_at := Some t\<rparr>)) \<and>
              delivered m' = (delivered_at m' \<noteq> None)"
proof -
  have "m = m \<or> (\<exists>t. m = m\<lparr>delivered := True, delivered_at := Some t\<rparr>)"
    by simp
  from run_core_row_shape [OF assms(2) assms(1) this, of e ops]
  obtain m' where m': "query_get (messages (run_core e w ops)) k = Some m'"
    "m' = m \<or> (\<exists>t. m' = m\<lparr>delivered := True, delivered_at := Some t\<rparr>)"
    by blast
  from m'(2) have "delivered m' = (delivered_at m' \<noteq> None)"
  proof
    assume "m' = m"
    then show ?thesis using assms(2,3) by simp
  next
    assume "\<exists>t. m' = m\<lparr>delivered := True, delivered_at := Some t\<rparr>"
    then obtain t where "m' = m\<lparr>delivered := True, delivered_at := Some t\<rparr>" by blast
    then show ?thesis by simp
  qed
  with m' show ?thesis by blast
qed

theorem delivered_iff_delivered_at_witness:
  "query_get (messages demo_world) 1 = Some (demo_row 1 900) \<and>
   query_get (messages demo_world) 3 = Some (demo_row 3 920) \<and>
   \<not> delivered (demo_row 1 900) \<and> delivered_at (demo_row 1 900) = None \<and>
   \<not> delivered (demo_row 3 920) \<and> delivered_at (demo_row 3 920) = None \<and>
   query_get (messages demo_world) 7 =
     Some ((demo_row 7 800)\<lparr>delivered := True, delivered_at := Some 801\<rparr>) \<and>
   query_get (messages (run_core demo_env demo_world [Tick])) 1 =
     Some ((demo_row 1 900)\<lparr>delivered := True, delivered_at := Some 1001\<rparr>) \<and>
   query_get (messages (run_core demo_env demo_world [Tick])) 3 = Some (demo_row 3 920) \<and>
   (\<exists>m'. query_get (messages (run_core demo_env demo_world [Tick])) 1 = Some m' \<and>
         delivered m' = (delivered_at m' \<noteq> None)) \<and>
   (\<exists>m'. query_get (messages (run_core demo_env demo_world [Tick])) 3 = Some m' \<and>
         delivered m' = (delivered_at m' \<noteq> None))"
proof -
  have a1: "query_get (messages demo_world) 1 = Some (demo_row 1 900)"
    and a3: "query_get (messages demo_world) 3 = Some (demo_row 3 920)"
    and a7: "query_get (messages demo_world) 7 =
      Some ((demo_row 7 800)\<lparr>delivered := True, delivered_at := Some 801\<rparr>)"
    by (simp_all add: demo_world_def demo_row_sel query_get_def)
  have f: "\<not> delivered (demo_row 1 900)" "delivered_at (demo_row 1 900) = None"
    "\<not> delivered (demo_row 3 920)" "delivered_at (demo_row 3 920) = None"
    by (simp_all add: demo_row_sel)
  have r: "run_core demo_env demo_world [Tick] = check_and_send_messages demo_env demo_world"
    by (simp add: run_core_def)
  have e1: "query_get (messages (run_core demo_env demo_world [Tick])) 1 =
      Some ((demo_row 1 900)\<lparr>delivered := True, delivered_at := Some 1001\<rparr>)"
    and e3: "query_get (messages (run_core demo_env demo_world [Tick])) 3 = Some (demo_row 3 920)"
    by (simp_all add: r demo_tick query_get_def demo_row_sel)
  from delivered_iff_delivered_at [OF a1 f(1,2), of demo_env "[Tick]"]
  have c1: "\<exists>m'. query_get (messages (run_core demo_env demo_world [Tick])) 1 = Some m' \<and>
         delivered m' = (delivered_at m' \<noteq> None)"
    by blast
  from delivered_iff_delivered_at [OF a3 f(3,4), of demo_env "[Tick]"]
  have c3: "\<exists>m'. query_get (messages (run_core demo_env demo_world [Tick])) 3 = Some m' \<and>
         delivered m' = (delivered_at m' \<noteq> None)"
    by blast
  from a1 a3 a7 f e1 e3 c1 c3 show ?thesis by blast
qed

text \<open>
  C2 (no early delivery). Let the tick read \<open>now\<close> from the clock (line 118), in a table
  whose primary keys are distinct. A message whose \<open>delivery_datetime\<close> is later than
  \<open>now\<close> is the same row after the tick (so it is not marked delivered), and the tick
  makes no call of \<^verbatim>\<open>mail.send\<close> for it. Every call of \<^verbatim>\<open>mail.send\<close> the tick makes
  is for a row that was not delivered and was due at \<open>now\<close>.
\<close>

theorem no_early_delivery:
  assumes "distinct (map msg_id (messages w))" and "m \<in> set (messages w)"
    and "now_at e (now_reads w) < delivery_datetime m"
  shows "query_get (messages (check_and_send_messages e w)) (msg_id m) = Some m \<and>
         calls_for (msg_id m) (outbox (check_and_send_messages e w)) =
           calls_for (msg_id m) (outbox w) \<and>
         (\<forall>c\<in>set (drop (length (outbox w)) (outbox (check_and_send_messages e w))).
            \<exists>r\<in>set (messages w). call_for c = msg_id r \<and> \<not> delivered r \<and>
               delivery_datetime r \<le> now_at e (now_reads w))"
proof -
  let ?now = "now_at e (now_reads w)"
  let ?ks = "map msg_id (pending_messages (messages w) ?now)"
  let ?w1 = "w\<lparr>now_reads := Suc (now_reads w)\<rparr>"
  have row: "query_get (messages w) (msg_id m) = Some m"
    using assms(1,2) by (rule query_get_distinct)
  have notin: "msg_id m \<notin> set ?ks"
  proof
    assume "msg_id m \<in> set ?ks"
    then obtain r where r: "r \<in> set (messages w)" "\<not> delivered r"
        "delivery_datetime r \<le> ?now" "msg_id r = msg_id m"
      by (auto simp: pending_messages_def)
    have "query_get (messages w) (msg_id r) = Some r"
      using assms(1) r(1) by (rule query_get_distinct)
    then have "query_get (messages w) (msg_id m) = Some r"
      by (simp only: r(4))
    then have "Some r = Some m" by (simp only: row)
    then have "r = m" by (simp only: option.inject)
    with r(3) assms(3) show False by simp
  qed
  have 1: "query_get (messages (check_and_send_messages e w)) (msg_id m) = Some m"
    using loop_row_other [OF notin, of e ?w1] row by (simp add: tick_unfold)
  have 2: "calls_for (msg_id m) (outbox (check_and_send_messages e w)) =
      calls_for (msg_id m) (outbox w)"
    using loop_calls_other [OF notin, of e ?w1] by (simp add: tick_unfold)
  obtain tr where tr: "outbox (foldl (send_time_message e) ?w1 ?ks) = outbox ?w1 @ tr"
      "\<forall>c\<in>set tr. call_for c \<in> set ?ks"
    using loop_outbox_ext by blast
  have "drop (length (outbox w)) (outbox (check_and_send_messages e w)) = tr"
    using tr(1) by (simp add: tick_unfold)
  moreover have "\<exists>r\<in>set (messages w). call_for c = msg_id r \<and> \<not> delivered r \<and>
      delivery_datetime r \<le> ?now" if "c \<in> set tr" for c
  proof -
    from that tr(2) have "call_for c \<in> set ?ks" by blast
    then show ?thesis by (auto simp: pending_messages_def)
  qed
  ultimately show ?thesis using 1 2 by simp
qed

theorem no_early_delivery_witness:
  "distinct (map msg_id (messages demo_world)) \<and>
   demo_row 6 2000 \<in> set (messages demo_world) \<and>
   now_at demo_env (now_reads demo_world) < delivery_datetime (demo_row 6 2000) \<and>
   query_get (messages (check_and_send_messages demo_env demo_world)) 6 = Some (demo_row 6 2000) \<and>
   calls_for 6 (outbox (check_and_send_messages demo_env demo_world)) = [] \<and>
   map call_for (outbox (check_and_send_messages demo_env demo_world)) = [1, 2, 3, 4, 5]"
proof -
  have b: "demo_row 6 2000 \<in> set (messages demo_world)"
    by (simp add: demo_world_def)
  have c: "now_at demo_env (now_reads demo_world) < delivery_datetime (demo_row 6 2000)"
    by (simp add: demo_world_def demo_env_def demo_row_sel)
  have d: "map call_for (outbox (check_and_send_messages demo_env demo_world)) = [1, 2, 3, 4, 5]"
    by (simp add: demo_tick)
  have e: "outbox demo_world = []"
    by (simp add: demo_world_def)
  from no_early_delivery [OF demo_distinct b c] demo_distinct b c d e show ?thesis
    by (simp add: calls_for_def demo_row_sel)
qed



text \<open>
  C8 (frame of a successful delivery). Suppose the fetched row is not delivered and
  \<^verbatim>\<open>mail.send\<close> returns. Then the table after \<open>send_time_message\<close> is the table before
  with \<open>delivered\<close> and \<open>delivered_at\<close> of the rows with this id overwritten and nothing
  else touched: the row fetched for the id has the same \<open>msg_id\<close>, \<open>user_id\<close>,
  \<open>content\<close>, \<open>recipient_email\<close>, \<open>delivery_datetime\<close> and \<open>created_at\<close>; the rows of all
  other ids are the same rows in the same order; the users are unchanged.
\<close>

theorem successful_delivery_frame:
  assumes "query_get (messages w) k = Some m" and "\<not> delivered m"
    and "mail_ok e (length (outbox w)) (render m)"
  shows "messages (send_time_message e w k) =
           map (\<lambda>r. if msg_id r = k
                     then r\<lparr>delivered := True, delivered_at := Some (now_at e (now_reads w))\<rparr>
                     else r) (messages w) \<and>
         (\<exists>m'. query_get (messages (send_time_message e w k)) k = Some m' \<and>
               msg_id m' = msg_id m \<and> user_id m' = user_id m \<and> content m' = content m \<and>
               recipient_email m' = recipient_email m \<and>
               delivery_datetime m' = delivery_datetime m \<and> created_at m' = created_at m \<and>
               delivered m' \<and> delivered_at m' = Some (now_at e (now_reads w))) \<and>
         (\<forall>j. j \<noteq> k \<longrightarrow>
            query_get (messages (send_time_message e w k)) j = query_get (messages w) j) \<and>
         filter (\<lambda>r. msg_id r \<noteq> k) (messages (send_time_message e w k)) =
           filter (\<lambda>r. msg_id r \<noteq> k) (messages w) \<and>
         map msg_id (messages (send_time_message e w k)) = map msg_id (messages w) \<and>
         users (send_time_message e w k) = users w"
proof -
  let ?t = "now_at e (now_reads w)"
  have eq: "messages (send_time_message e w k) = mark_delivered (messages w) k ?t"
    using send_ok [OF assms] by simp
  have 1: "messages (send_time_message e w k) =
      map (\<lambda>r. if msg_id r = k then r\<lparr>delivered := True, delivered_at := Some ?t\<rparr> else r)
        (messages w)"
    using eq by (simp add: mark_delivered_def)
  have 2: "query_get (messages (send_time_message e w k)) k =
      Some (m\<lparr>delivered := True, delivered_at := Some ?t\<rparr>)"
    using assms(1) by (simp add: eq query_get_mark_delivered)
  have 3: "\<forall>j. j \<noteq> k \<longrightarrow>
      query_get (messages (send_time_message e w k)) j = query_get (messages w) j"
    by (simp add: send_row_other)
  have 4: "filter (\<lambda>r. msg_id r \<noteq> k) (mark_delivered rows k ?t) =
      filter (\<lambda>r. msg_id r \<noteq> k) rows" for rows
    by (induction rows) (simp_all add: mark_delivered_def)
  show ?thesis
    using 1 2 3 4 [of "messages w"] by (simp add: eq send_ids send_users)
qed

theorem successful_delivery_frame_witness:
  "query_get (messages demo_world) 1 = Some (demo_row 1 900) \<and>
   \<not> delivered (demo_row 1 900) \<and>
   mail_ok demo_env (length (outbox demo_world)) (render (demo_row 1 900)) \<and>
   messages (send_time_message demo_env demo_world 1) =
     [(demo_row 1 900)\<lparr>delivered := True, delivered_at := Some 1000\<rparr>,
      demo_row 2 910, demo_row 3 920, demo_row 4 930, demo_row 5 1000, demo_row 6 2000,
      (demo_row 7 800)\<lparr>delivered := True, delivered_at := Some 801\<rparr>]"
proof -
  have a: "query_get (messages demo_world) 1 = Some (demo_row 1 900)"
    by (simp add: demo_world_def demo_row_sel query_get_def)
  have b: "\<not> delivered (demo_row 1 900)"
    by (simp add: demo_row_sel)
  have c: "mail_ok demo_env (length (outbox demo_world)) (render (demo_row 1 900))"
    by (simp add: demo_env_def demo_world_def)
  have d: "messages demo_world =
      [demo_row 1 900, demo_row 2 910, demo_row 3 920, demo_row 4 930, demo_row 5 1000,
       demo_row 6 2000, (demo_row 7 800)\<lparr>delivered := True, delivered_at := Some 801\<rparr>]"
      "now_at demo_env (now_reads demo_world) = 1000"
    by (simp_all add: demo_world_def demo_env_def)
  from successful_delivery_frame [OF a b c] a b c show ?thesis
    by (simp add: d demo_row_sel)
qed



text \<open>
  C10 (lower bound of the delivery timestamp). Let the readings of \<^verbatim>\<open>datetime.now()\<close>
  never go back, and the primary keys be distinct. If a row was not delivered before a
  tick and is delivered after it, then its \<open>delivered_at\<close> is a clock reading that is
  neither before the tick's \<open>current_time\<close> nor before the row's \<open>delivery_datetime\<close>.
\<close>

theorem delivered_at_lower_bound:
  assumes "mono (now_at e)" and "distinct (map msg_id (messages w))"
    and "query_get (messages w) k = Some m" and "\<not> delivered m"
    and "query_get (messages (check_and_send_messages e w)) k = Some m'" and "delivered m'"
  shows "\<exists>t. delivered_at m' = Some t \<and> delivery_datetime m' \<le> t \<and>
             now_at e (now_reads w) \<le> t"
proof -
  let ?now = "now_at e (now_reads w)"
  let ?ks = "map msg_id (pending_messages (messages w) ?now)"
  let ?w1 = "w\<lparr>now_reads := Suc (now_reads w)\<rparr>"
  have row1: "query_get (messages ?w1) k = Some m"
    using assms(3) by simp
  have after: "query_get (messages (foldl (send_time_message e) ?w1 ?ks)) k = Some m'"
    using assms(5) by (simp add: tick_unfold)
  from loop_newly_delivered [OF row1 assms(4) after assms(6)]
  obtain r where k: "k \<in> set ?ks" and r: "now_reads ?w1 \<le> r"
    and m': "m' = m\<lparr>delivered := True, delivered_at := Some (now_at e r)\<rparr>"
    by blast
  from k obtain p where p: "p \<in> set (messages w)" "delivery_datetime p \<le> ?now" "msg_id p = k"
    by (auto simp: pending_messages_def)
  have "query_get (messages w) (msg_id p) = Some p"
    using assms(2) p(1) by (rule query_get_distinct)
  then have "Some p = Some m"
    by (simp only: p(3) assms(3))
  then have "p = m" by (simp only: option.inject)
  then have due: "delivery_datetime m \<le> ?now"
    using p(2) by simp
  have "now_reads w \<le> r" using r by simp
  then have later: "?now \<le> now_at e r"
    using assms(1) by (simp only: monoD)
  from due later m' show ?thesis by simp
qed

theorem delivered_at_lower_bound_witness:
  "mono (now_at demo_env) \<and> distinct (map msg_id (messages demo_world)) \<and>
   query_get (messages demo_world) 5 = Some (demo_row 5 1000) \<and>
   \<not> delivered (demo_row 5 1000) \<and>
   query_get (messages (check_and_send_messages demo_env demo_world)) 5 =
     Some ((demo_row 5 1000)\<lparr>delivered := True, delivered_at := Some 1004\<rparr>) \<and>
   (\<exists>t. delivered_at ((demo_row 5 1000)\<lparr>delivered := True, delivered_at := Some 1004\<rparr>) = Some t \<and>
        delivery_datetime ((demo_row 5 1000)\<lparr>delivered := True, delivered_at := Some 1004\<rparr>) \<le> t \<and>
        now_at demo_env (now_reads demo_world) \<le> t)"
proof -
  have a: "mono (now_at demo_env)"
    by (simp add: demo_env_def mono_def)
  have c: "query_get (messages demo_world) 5 = Some (demo_row 5 1000)"
    by (simp add: demo_world_def demo_row_sel query_get_def)
  have d: "\<not> delivered (demo_row 5 1000)"
    by (simp add: demo_row_sel)
  have f: "query_get (messages (check_and_send_messages demo_env demo_world)) 5 =
     Some ((demo_row 5 1000)\<lparr>delivered := True, delivered_at := Some 1004\<rparr>)"
    by (simp add: demo_tick query_get_def demo_row_sel)
  have g: "delivered ((demo_row 5 1000)\<lparr>delivered := True, delivered_at := Some 1004\<rparr>)"
    by simp
  from delivered_at_lower_bound [OF a demo_distinct c d f g] a demo_distinct c d f
  show ?thesis by blast
qed




text \<open>
  C5 (epoch guard on every privileged request). \<open>dashboard\<close> makes the check, and
  \<open>create_message\<close> does not: it tests only that \<^verbatim>\<open>user_id\<close> is in the session. With the
  cookie that \<open>login\<close> stamped at epoch 100 and a process whose epoch is 200, the session
  is not valid, \<open>dashboard\<close> clears it and redirects to the login page, and
  \<open>create_message\<close> inserts the new message and leaves the stale session in place.
\<close>

theorem create_message_accepts_stale_epoch:
  "is_session_valid 200 stale_session = False \<and>
   resp (dashboard 200 demo_world stale_session) = Redirect ''login'' \<and>
   sess_out (dashboard 200 demo_world stale_session) = session_clear \<and>
   resp (create_message demo_strptime demo_env demo_world stale_session demo_form) =
     Redirect ''dashboard'' \<and>
   sess_out (create_message demo_strptime demo_env demo_world stale_session demo_form) =
     stale_session \<and>
   messages (world_out
     (create_message demo_strptime demo_env demo_world stale_session demo_form)) =
     messages demo_world @
       [\<lparr>msg_id = 8, user_id = 1, content = ''hi'', recipient_email = ''bob@example.org'',
         delivery_datetime = 5000, delivered = False, created_at = 1001,
         delivered_at = None\<rparr>]"
  by (simp add: is_session_valid_def dashboard_def create_message_def stale_session_def
      demo_strptime_def demo_form_def demo_env_def demo_world_def get_user_def next_id_def
      demo_row_sel)

end
